theory Spec2Isabelle
  imports Complex_Main
begin

section \<open>Interactive map: region containment, overlay compositor, frame loops\<close>

text \<open>
  A shallow embedding of \<^verbatim>\<open>Project2_FlightTime/flight_time.py\<close> and
  \<^verbatim>\<open>Step1-GetCornerPoints/get_map.py\<close>. Canonical (map) coordinates are integer
  pixel positions; the overlay image is represented by the sequence of drawing calls
  applied to it, in program order, so the zero-initialised image is the empty sequence.
\<close>

subsection \<open>Points, polygons and the containment primitive\<close>

type_synonym point = "int \<times> int"
type_synonym polygon = "point list"
type_synonym region = "polygon \<times> string"

text \<open>
  Modelled from the spec: \<^verbatim>\<open>cv2.pointPolygonTest(contour, pt, False)\<close> belongs to the
  OpenCV library, not to the repository. The spec's Region Index tests whether the point
  lies inside or exactly on the polygon boundary; the library returns \<open>+1\<close> inside,
  \<open>0\<close> on an edge and \<open>-1\<close> outside. The definitions below follow the library's
  integer branch (an \<^verbatim>\<open>int32\<close> contour and an integer-valued point, as
  \<^verbatim>\<open>create_overlay_image\<close> passes them): one pass over the closed sequence of
  edges \<open>(v0, v)\<close>, starting with the edge from the last vertex to the first.
\<close>

definition edge_skipped :: "point \<Rightarrow> point \<Rightarrow> point \<Rightarrow> bool" where
  "edge_skipped ip v0 v =
     ((snd v0 \<le> snd ip \<and> snd v \<le> snd ip) \<or>
      (snd v0 > snd ip \<and> snd v > snd ip) \<or>
      (fst v0 < fst ip \<and> fst v < fst ip))"

definition edge_touched :: "point \<Rightarrow> point \<Rightarrow> point \<Rightarrow> bool" where
  "edge_touched ip v0 v =
     (snd ip = snd v \<and>
      (fst ip = fst v \<or>
       (snd ip = snd v0 \<and>
        ((fst v0 \<le> fst ip \<and> fst ip \<le> fst v) \<or> (fst v \<le> fst ip \<and> fst ip \<le> fst v0)))))"

definition edge_dist :: "point \<Rightarrow> point \<Rightarrow> point \<Rightarrow> int" where
  "edge_dist ip v0 v =
     (snd ip - snd v0) * (fst v - fst v0) - (fst ip - fst v0) * (snd v - snd v0)"

fun ppt_loop :: "point \<Rightarrow> point \<Rightarrow> point list \<Rightarrow> nat \<Rightarrow> int" where
  "ppt_loop ip v0 [] counter = (if counter mod 2 = 0 then - 1 else 1)"
| "ppt_loop ip v0 (v # vs) counter =
     (if edge_skipped ip v0 v
      then (if edge_touched ip v0 v then 0 else ppt_loop ip v vs counter)
      else (let dist = edge_dist ip v0 v in
            if dist = 0 then 0
            else ppt_loop ip v vs
                   (counter + (if (if snd v < snd v0 then - dist else dist) > 0 then 1 else 0))))"

definition pointPolygonTest :: "polygon \<Rightarrow> point \<Rightarrow> int" where
  "pointPolygonTest contour pt =
     (if contour = [] then - 1 else ppt_loop pt (last contour) contour 0)"

text \<open>The test of \<^verbatim>\<open>create_overlay_image\<close> (lines 211-212 and 229-230):
  \<^verbatim>\<open>result = cv2.pointPolygonTest(polygon_np, warp_point, False); if result >= 0\<close>.\<close>

definition region_hit :: "polygon \<Rightarrow> point \<Rightarrow> bool" where
  "region_hit polygon warp_point = (pointPolygonTest polygon warp_point \<ge> 0)"

subsection \<open>Geometry of the stated property\<close>

text \<open>
  What the spec's words mean for a closed polygon given by its vertex list: the boundary
  is the union of the closed segments between consecutive vertices (the last vertex is
  joined to the first); a point off the boundary is inside when the horizontal ray
  leaving it towards larger \<open>x\<close> crosses the boundary an odd number of times (the
  even-odd rule; the crossing abscissa is computed in exact rational arithmetic, and an
  edge is taken half-open in \<open>y\<close> so that a vertex on the ray is counted once).
\<close>

definition edges :: "polygon \<Rightarrow> (point \<times> point) list" where
  "edges contour = (if contour = [] then [] else zip (last contour # contour) contour)"

definition on_segment :: "point \<Rightarrow> point \<Rightarrow> point \<Rightarrow> bool" where
  "on_segment a b p =
     ((snd p - snd a) * (fst b - fst a) = (fst p - fst a) * (snd b - snd a) \<and>
      min (fst a) (fst b) \<le> fst p \<and> fst p \<le> max (fst a) (fst b) \<and>
      min (snd a) (snd b) \<le> snd p \<and> snd p \<le> max (snd a) (snd b))"

definition on_boundary :: "polygon \<Rightarrow> point \<Rightarrow> bool" where
  "on_boundary contour p = (\<exists>e \<in> set (edges contour). on_segment (fst e) (snd e) p)"

definition ray_crosses :: "point \<Rightarrow> point \<Rightarrow> point \<Rightarrow> bool" where
  "ray_crosses a b p =
     (((snd a \<le> snd p \<and> snd p < snd b) \<or> (snd b \<le> snd p \<and> snd p < snd a)) \<and>
      (of_int (fst p) :: rat) <
        of_int (fst a) + of_int (snd p - snd a) * of_int (fst b - fst a) / of_int (snd b - snd a))"

definition crossings :: "polygon \<Rightarrow> point \<Rightarrow> nat" where
  "crossings contour p = length (filter (\<lambda>e. ray_crosses (fst e) (snd e) p) (edges contour))"

definition inside :: "polygon \<Rightarrow> point \<Rightarrow> bool" where
  "inside contour p = (\<not> on_boundary contour p \<and> odd (crossings contour p))"

text \<open>The two ways an edge ends or feeds the library's loop.\<close>

definition edge_zero :: "point \<Rightarrow> point \<Rightarrow> point \<Rightarrow> bool" where
  "edge_zero ip v0 v =
     (if edge_skipped ip v0 v then edge_touched ip v0 v else edge_dist ip v0 v = 0)"

definition edge_counted :: "point \<Rightarrow> point \<Rightarrow> point \<Rightarrow> bool" where
  "edge_counted ip v0 v =
     (\<not> edge_skipped ip v0 v \<and>
      (if snd v < snd v0 then - edge_dist ip v0 v else edge_dist ip v0 v) > 0)"

text \<open>The square of the spec's containment example.\<close>

definition square :: polygon where
  "square = [(0, 0), (10, 0), (10, 10), (0, 10)]"

subsection \<open>The overlay image and the travel table\<close>

text \<open>
  The drawing calls of \<^verbatim>\<open>create_overlay_image\<close>, with the arguments that vary:
  \<^verbatim>\<open>cv2.polylines\<close> (closed, green, thickness 2), \<^verbatim>\<open>cv2.fillPoly\<close> (green),
  \<^verbatim>\<open>cvzone.putTextRect(img, text, pos, scale, thickness)\<close> and
  \<^verbatim>\<open>cv2.line(img, pt1, pt2, green, thickness)\<close>. An image is the list of calls made
  on it since \<^verbatim>\<open>np.zeros\<close>.
\<close>

datatype draw =
    Polylines polygon
  | FillPoly polygon
  | PutTextRect string point nat nat
  | Line point point nat

type_synonym canvas = "draw list"

definition flight_time_list :: "string list list" where
  "flight_time_list =
     [[''USA'', ''India'', ''14 hours''],
      [''USA'', ''China'', ''15 hours''],
      [''Russia'', ''India'', ''6 hours''],
      [''Canada'', ''India'', ''17 hours''],
      [''Saudi Arabia'', ''USA'', ''14 hours'']]"

text \<open>Lines 222-224: the two texts drawn for one table row.\<close>

definition flight_time_texts :: "string list \<Rightarrow> canvas" where
  "flight_time_texts flight_time =
     [PutTextRect (flight_time ! 1 @ '' to '' @ flight_time ! 0) (0, 100) 8 5,
      PutTextRect (flight_time ! 2) (0, 200) 8 5]"

text \<open>Lines 220-224: the loop over the table; \<^verbatim>\<open>x in flight_time\<close> compares \<open>x\<close>
  with every element of the row, and the loop has no \<^verbatim>\<open>break\<close>.\<close>

fun show_flight_times :: "string list list \<Rightarrow> string \<Rightarrow> string \<Rightarrow> canvas \<Rightarrow> canvas" where
  "show_flight_times [] a b imgOverlay = imgOverlay"
| "show_flight_times (flight_time # rest) a b imgOverlay =
     (if a \<in> set flight_time \<and> b \<in> set flight_time
      then show_flight_times rest a b (imgOverlay @ flight_time_texts flight_time)
      else show_flight_times rest a b imgOverlay)"

text \<open>The rows that the condition of line 221 selects for a pair of names.\<close>

definition flight_time_lookup :: "string list list \<Rightarrow> string \<Rightarrow> string \<Rightarrow> string list list" where
  "flight_time_lookup table a b = filter (\<lambda>flight_time. a \<in> set flight_time \<and> b \<in> set flight_time) table"

subsection \<open>\<^verbatim>\<open>create_overlay_image\<close>\<close>

text \<open>
  \<^verbatim>\<open>get_finger_location\<close> returns \<^verbatim>\<open>None\<close>, one tuple, or a list of exactly two
  tuples (line 185); \<^verbatim>\<open>create_overlay_image\<close> is called for the last two only and
  branches on \<^verbatim>\<open>isinstance(warped_point, list)\<close>.
\<close>

datatype warped_point = Tuple point | List2 point point

text \<open>Lines 213-215: the marking of one matched polygon in the two-point branch.\<close>

definition mark_polygon :: "polygon \<Rightarrow> string \<Rightarrow> canvas" where
  "mark_polygon polygon name =
     [Polylines polygon, FillPoly polygon, PutTextRect name (polygon ! 0) 1 1]"

text \<open>Lines 231-234: the single-point branch adds the headline text.\<close>

definition mark_polygon_headline :: "polygon \<Rightarrow> string \<Rightarrow> canvas" where
  "mark_polygon_headline polygon name =
     [Polylines polygon, FillPoly polygon, PutTextRect name (polygon ! 0) 1 1,
      PutTextRect name (0, 100) 8 5]"

text \<open>Lines 209-217: the inner loop over the polygons for one point of the pair;
  it carries the image and the list \<^verbatim>\<open>check\<close>.\<close>

fun mark_regions :: "region list \<Rightarrow> point \<Rightarrow> canvas \<Rightarrow> string list \<Rightarrow> canvas \<times> string list" where
  "mark_regions [] warp_point imgOverlay check = (imgOverlay, check)"
| "mark_regions ((polygon, name) # rest) warp_point imgOverlay check =
     (if pointPolygonTest polygon warp_point \<ge> 0
      then mark_regions rest warp_point (imgOverlay @ mark_polygon polygon name) (check @ [name])
      else mark_regions rest warp_point imgOverlay check)"

text \<open>Lines 207-217: both points, first to second.\<close>

definition mark_both :: "region list \<Rightarrow> point \<Rightarrow> point \<Rightarrow> canvas \<Rightarrow> canvas \<times> string list" where
  "mark_both polygons p1 p2 imgOverlay =
     (case mark_regions polygons p1 imgOverlay [] of
        (img1, check1) \<Rightarrow> mark_regions polygons p2 img1 check1)"

text \<open>Lines 227-234: the loop of the single-point branch.\<close>

fun mark_regions_single :: "region list \<Rightarrow> point \<Rightarrow> canvas \<Rightarrow> canvas" where
  "mark_regions_single [] warped_point imgOverlay = imgOverlay"
| "mark_regions_single ((polygon, name) # rest) warped_point imgOverlay =
     (if pointPolygonTest polygon warped_point \<ge> 0
      then mark_regions_single rest warped_point (imgOverlay @ mark_polygon_headline polygon name)
      else mark_regions_single rest warped_point imgOverlay)"

fun create_overlay_image :: "region list \<Rightarrow> warped_point \<Rightarrow> canvas \<Rightarrow> canvas" where
  "create_overlay_image polygons (List2 p1 p2) imgOverlay =
     (case mark_both polygons p1 p2 imgOverlay of
        (img, check) \<Rightarrow>
          if length check = 2
          then show_flight_times flight_time_list (check ! 0) (check ! 1) (img @ [Line p1 p2 10])
          else img)"
| "create_overlay_image polygons (Tuple p) imgOverlay = mark_regions_single polygons p imgOverlay"

text \<open>The Region Index query of the spec: the names of the regions hit, in load order.\<close>

definition query :: "region list \<Rightarrow> point \<Rightarrow> string list" where
  "query polygons p = map snd (filter (\<lambda>r. region_hit (fst r) p) polygons)"

definition hit_regions :: "region list \<Rightarrow> point \<Rightarrow> region list" where
  "hit_regions polygons p = filter (\<lambda>r. region_hit (fst r) p) polygons"

text \<open>What is drawn for the regions hit by one point, in load order: in the two-point
  branch and, with the headline, in the single-point branch.\<close>

definition marks :: "region list \<Rightarrow> point \<Rightarrow> canvas" where
  "marks polygons p = concat (map (\<lambda>r. mark_polygon (fst r) (snd r)) (hit_regions polygons p))"

definition marks_headline :: "region list \<Rightarrow> point \<Rightarrow> canvas" where
  "marks_headline polygons p =
     concat (map (\<lambda>r. mark_polygon_headline (fst r) (snd r)) (hit_regions polygons p))"

text \<open>Three example regions: two overlapping squares and a third one apart.\<close>

definition overlap_square :: polygon where
  "overlap_square = [(5, 5), (15, 5), (15, 15), (5, 15)]"

definition far_square :: polygon where
  "far_square = [(20, 20), (30, 20), (30, 30), (20, 30)]"

definition overlap_regions :: "region list" where
  "overlap_regions = [(square, ''USA''), (overlap_square, ''Canada''), (far_square, ''India'')]"

subsection \<open>The frame loop of \<^verbatim>\<open>flight_time.py\<close>\<close>

text \<open>
  \<^verbatim>\<open>get_finger_location\<close>: the detector's hands are given by their index fingertips
  after \<^verbatim>\<open>warp_single_point\<close> (a floating-point perspective division, taken as input
  here). The detector is configured with \<^verbatim>\<open>maxHands=2\<close>; the code tests
  \<^verbatim>\<open>if hands\<close> and \<^verbatim>\<open>len(hands) == 2\<close>.
\<close>

fun get_finger_location :: "point list \<Rightarrow> warped_point option" where
  "get_finger_location [] = None"
| "get_finger_location [h1, h2] = Some (List2 h1 h2)"
| "get_finger_location (h1 # hs) = Some (Tuple h1)"

text \<open>
  A displayed picture is the camera frame itself (\<^verbatim>\<open>img.copy()\<close>) or the result of
  \<^verbatim>\<open>inverse_warp_image(img, imgOverlay, map_points)\<close>, left symbolic: it is
  \<^verbatim>\<open>cv2.addWeighted(img, 1, cv2.warpPerspective(imgOverlay, M, ...), 0.65, 0)\<close>.
\<close>

datatype 'img picture = Camera 'img | Blended 'img canvas

text \<open>
  The trace of one loop iteration: the calls that receive the acquired frame, in program
  order, the lines printed and the files written. \<^verbatim>\<open>cap.read()\<close> returns a success
  flag and the frame: \<^verbatim>\<open>(True, frame)\<close>, or \<^verbatim>\<open>(False, None)\<close> when nothing was
  grabbed. On \<^verbatim>\<open>None\<close>, \<^verbatim>\<open>cv2.warpPerspective\<close> and \<^verbatim>\<open>cv2.imshow\<close> raise
  \<^verbatim>\<open>cv2.error\<close>, while \<^verbatim>\<open>cv2.circle\<close> returns without drawing; the call is
  recorded all the same.
\<close>

datatype frame_op =
    Op_warp_image | Op_copy | Op_findHands | Op_inverse_warp_image | Op_circle | Op_imshow

datatype event = Applied frame_op | Printed string | Dumped "point list"

datatype error = Cv2Error frame_op | IndexError

text \<open>Lines 239-262 of \<^verbatim>\<open>flight_time.py\<close>, one iteration: the trace, and either the
  exception that ends the program or the overlay image and the picture shown.\<close>

definition flight_time_iteration ::
  "region list \<Rightarrow> bool \<times> 'img option \<Rightarrow> point list \<Rightarrow>
     event list \<times> (error + canvas \<times> 'img picture)" where
  "flight_time_iteration polygons rd hands =
     (case rd of
        (success, None) \<Rightarrow> ([Applied Op_warp_image], Inl (Cv2Error Op_warp_image))
      | (success, Some img) \<Rightarrow>
          (case get_finger_location hands of
             None \<Rightarrow>
               ([Applied Op_warp_image, Applied Op_copy, Applied Op_findHands, Applied Op_imshow],
                Inr ([], Camera img))
           | Some warped_point \<Rightarrow>
               (let imgOverlay = create_overlay_image polygons warped_point [] in
                ([Applied Op_warp_image, Applied Op_copy, Applied Op_findHands,
                  Applied Op_inverse_warp_image, Applied Op_imshow],
                 Inr (imgOverlay, Blended img imgOverlay)))))"

subsection \<open>The authoring tool \<^verbatim>\<open>get_map.py\<close>\<close>

text \<open>The globals \<^verbatim>\<open>points = np.zeros((4, 2), int)\<close> and \<^verbatim>\<open>counter = 0\<close>.\<close>

record authoring =
  points :: "point list"
  counter :: nat

definition authoring_init :: authoring where
  "authoring_init = \<lparr>points = replicate 4 (0, 0), counter = 0\<rparr>"

datatype mouse_event = EVENT_LBUTTONDOWN | EVENT_MOUSEMOVE | EVENT_LBUTTONUP

text \<open>
  \<^verbatim>\<open>mousePoints\<close> (lines 18-36): \<^verbatim>\<open>points[counter] = x, y\<close> raises
  \<^verbatim>\<open>IndexError\<close> when \<^verbatim>\<open>counter\<close> is not a row of the array, before anything is
  assigned and before \<^verbatim>\<open>counter += 1\<close>.
\<close>

definition mousePoints :: "mouse_event \<Rightarrow> int \<Rightarrow> int \<Rightarrow> authoring \<Rightarrow> error + authoring" where
  "mousePoints ev x y st =
     (if ev = EVENT_LBUTTONDOWN
      then (if counter st < length (points st)
            then Inr (st\<lparr>points := (points st)[counter st := (x, y)], counter := counter st + 1\<rparr>)
            else Inl IndexError)
      else Inr st)"

text \<open>The window system calls the handler for each mouse event during
  \<^verbatim>\<open>cv2.waitKey\<close>; an exception raised in the handler is printed and dropped there,
  so the globals stay as they were.\<close>

fun deliver :: "(mouse_event \<times> int \<times> int) list \<Rightarrow> authoring \<Rightarrow> authoring" where
  "deliver [] st = st"
| "deliver ((ev, x, y) # rest) st =
     (case mousePoints ev x y st of
        Inr st' \<Rightarrow> deliver rest st'
      | Inl e \<Rightarrow> deliver rest st)"

text \<open>The positions of the left-button presses among the delivered mouse events.\<close>

definition left_clicks :: "(mouse_event \<times> int \<times> int) list \<Rightarrow> point list" where
  "left_clicks clicks = map snd (filter (\<lambda>c. fst c = EVENT_LBUTTONDOWN) clicks)"

datatype outcome = Continue | Break | Raised error

text \<open>Lines 57-83 of \<^verbatim>\<open>get_map.py\<close>, one iteration: the frame read, the mouse events
  that arrive during \<^verbatim>\<open>waitKey\<close> and whether the key was \<^verbatim>\<open>q\<close>.\<close>

definition get_map_iteration ::
  "bool \<times> 'img option \<Rightarrow> (mouse_event \<times> int \<times> int) list \<Rightarrow> bool \<Rightarrow> authoring \<Rightarrow>
     event list \<times> outcome \<times> authoring" where
  "get_map_iteration rd clicks quit st =
     (let saved = (if counter st = 4
                   then [Dumped (points st), Printed ''Points saved to file: map.p'']
                   else [])
      in case rd of
        (success, None) \<Rightarrow>
          (if counter st = 4
           then (saved @ [Applied Op_warp_image], Raised (Cv2Error Op_warp_image), st)
           else if \<not> success
                then ([Applied Op_circle, Printed ''Failed to capture image''], Break, st)
                else ([Applied Op_circle, Applied Op_imshow], Raised (Cv2Error Op_imshow), st))
      | (success, Some img) \<Rightarrow>
          (let shown = saved @ (if counter st = 4 then [Applied Op_warp_image, Applied Op_imshow] else [])
                         @ [Applied Op_circle]
           in if \<not> success
              then (shown @ [Printed ''Failed to capture image''], Break, st)
              else (shown @ [Applied Op_imshow],
                    (if quit then Break else Continue), deliver clicks st)))"

text \<open>The loop: iterations run until one breaks or raises.\<close>

fun get_map_loop ::
  "((bool \<times> 'img option) \<times> (mouse_event \<times> int \<times> int) list \<times> bool) list \<Rightarrow> authoring \<Rightarrow>
     event list \<times> authoring" where
  "get_map_loop [] st = ([], st)"
| "get_map_loop ((rd, clicks, quit) # rest) st =
     (case get_map_iteration rd clicks quit st of
        (evs, Continue, st') \<Rightarrow> (case get_map_loop rest st' of (evs', st'') \<Rightarrow> (evs @ evs', st''))
      | (evs, oc, st') \<Rightarrow> (evs, st'))"

section \<open>Containment: the library's pass against the geometry\<close>

text \<open>The pass stops with \<open>0\<close> at the first edge that reports the point, and
  otherwise returns the parity of the counted edges.\<close>

lemma ppt_loop_char:
  "ppt_loop ip v0 vs c =
     (if \<exists>e \<in> set (zip (v0 # vs) vs). edge_zero ip (fst e) (snd e) then 0
      else if even (c + length (filter (\<lambda>e. edge_counted ip (fst e) (snd e)) (zip (v0 # vs) vs)))
           then - 1 else 1)"
proof (induction vs arbitrary: v0 c)
  case Nil
  then show ?case by (simp add: even_iff_mod_2_eq_zero)
next
  case (Cons v vs)
  show ?case
    by (simp add: Cons.IH edge_zero_def edge_counted_def Let_def)
qed


lemma edge_zero_end: "edge_zero p a p"
  by (simp add: edge_zero_def edge_skipped_def edge_touched_def edge_dist_def)

lemma cross_sign_pos:
  fixes s dy dx q :: int
  assumes "0 \<le> s" "s < dy" "0 < q" "dx < q"
  shows "s * dx - q * dy < 0"
proof -
  have "s * dx \<le> s * q" using assms by (simp add: mult_left_mono)
  also have "s * q < dy * q" using assms by (simp add: mult_strict_right_mono)
  finally show ?thesis by (simp add: mult.commute)
qed

lemma cross_sign_neg:
  fixes s dy dx q :: int
  assumes "0 < s" "s \<le> dy" "0 < q" "dx < q"
  shows "s * dx - q * dy < 0"
proof -
  have "s * dx < s * q" using assms by (simp add: mult_strict_left_mono)
  also have "s * q \<le> dy * q" using assms by (simp add: mult_right_mono)
  finally show ?thesis by (simp add: mult.commute)
qed

lemma edge_counted_iff_ray: "edge_counted p a b \<longleftrightarrow> ray_crosses a b p"
proof -
  obtain px py ax ay bx by' where [simp]: "p = (px, py)" "a = (ax, ay)" "b = (bx, by')"
    by (cases p, cases a, cases b) auto
  show ?thesis
  proof (cases "(ay \<le> py \<and> py < by') \<or> (by' \<le> py \<and> py < ay)")
    case False
    then show ?thesis
      by (auto simp: edge_counted_def ray_crosses_def edge_skipped_def)
  next
    case True
    then consider (up) "ay \<le> py" "py < by'" | (dn) "by' \<le> py" "py < ay" by auto
    then show ?thesis
    proof cases
      case up
      then have dy: "0 < by' - ay" by simp
      have ray: "((of_int px :: rat) < of_int ax + of_int (py - ay) * of_int (bx - ax) / of_int (by' - ay))
          \<longleftrightarrow> (px - ax) * (by' - ay) < (py - ay) * (bx - ax)"
      proof -
        have "((of_int px :: rat) < of_int ax + of_int (py - ay) * of_int (bx - ax) / of_int (by' - ay))
          \<longleftrightarrow> (of_int (px - ax) :: rat) < of_int ((py - ay) * (bx - ax)) / of_int (by' - ay)"
          by (simp add: algebra_simps)
        also have "\<dots> \<longleftrightarrow> (of_int (px - ax) :: rat) * of_int (by' - ay) < of_int ((py - ay) * (bx - ax))"
          using dy by (simp add: pos_less_divide_eq)
        also have "\<dots> \<longleftrightarrow> (px - ax) * (by' - ay) < (py - ay) * (bx - ax)"
          by (simp only: of_int_mult [symmetric] of_int_less_iff)
        finally show ?thesis .
      qed
      show ?thesis
      proof (cases "ax < px \<and> bx < px")
        case True
        have "(py - ay) * (bx - ax) - (px - ax) * (by' - ay) < 0"
          using cross_sign_pos [of "py - ay" "by' - ay" "px - ax" "bx - ax"] up True by simp
        then show ?thesis using up True ray
          by (simp add: edge_counted_def ray_crosses_def edge_skipped_def)
      next
        case False
        then show ?thesis using up ray
          by (auto simp: edge_counted_def ray_crosses_def edge_skipped_def edge_dist_def)
      qed
    next
      case dn
      then have dy: "by' - ay < 0" by simp
      have ray: "((of_int px :: rat) < of_int ax + of_int (py - ay) * of_int (bx - ax) / of_int (by' - ay))
          \<longleftrightarrow> (py - ay) * (bx - ax) < (px - ax) * (by' - ay)"
      proof -
        have "((of_int px :: rat) < of_int ax + of_int (py - ay) * of_int (bx - ax) / of_int (by' - ay))
          \<longleftrightarrow> (of_int (px - ax) :: rat) < of_int ((py - ay) * (bx - ax)) / of_int (by' - ay)"
          by (simp add: algebra_simps)
        also have "\<dots> \<longleftrightarrow> of_int ((py - ay) * (bx - ax)) < (of_int (px - ax) :: rat) * of_int (by' - ay)"
          using dy by (simp add: neg_less_divide_eq)
        also have "\<dots> \<longleftrightarrow> (py - ay) * (bx - ax) < (px - ax) * (by' - ay)"
          by (simp only: of_int_mult [symmetric] of_int_less_iff)
        finally show ?thesis .
      qed
      show ?thesis
      proof (cases "ax < px \<and> bx < px")
        case True
        have "(ay - py) * (bx - ax) - (px - ax) * (ay - by') < 0"
          using cross_sign_neg [of "ay - py" "ay - by'" "px - ax" "bx - ax"] dn True by simp
        then have "(px - ax) * (by' - ay) < (py - ay) * (bx - ax)"
          by (simp add: algebra_simps)
        then show ?thesis using dn True ray
          by (simp add: edge_counted_def ray_crosses_def edge_skipped_def)
      next
        case False
        then show ?thesis using dn ray
          by (auto simp: edge_counted_def ray_crosses_def edge_skipped_def edge_dist_def)
      qed
    qed
  qed
qed


lemma collinear_between:
  fixes q dy s dx :: int
  assumes eq: "s * dx = q * dy" and s: "0 \<le> s" "s \<le> dy" and dy: "0 < dy"
  shows "min 0 dx \<le> q \<and> q \<le> max 0 dx"
proof (cases "0 \<le> dx")
  case True
  have "0 \<le> q * dy" using s True eq [symmetric] by simp
  then have q0: "0 \<le> q" using dy by (simp add: zero_le_mult_iff)
  have "s * dx \<le> dy * dx" using s True by (simp add: mult_right_mono)
  then have "q * dy \<le> dx * dy" using eq by (simp add: mult.commute)
  then have "q \<le> dx" using dy by simp
  with q0 True show ?thesis by simp
next
  case False
  then have dx: "dx < 0" by simp
  have "q * dy \<le> 0" using s dx eq [symmetric] by (simp add: mult_le_0_iff)
  then have q0: "q \<le> 0" using dy by (simp add: mult_le_0_iff)
  have "dx * dy \<le> q * dy"
  proof -
    have "dy * dx \<le> s * dx" using s dx by (simp add: mult_right_mono_neg)
    then show ?thesis using eq by (simp add: mult.commute)
  qed
  then have "dx \<le> q" using dy by simp
  with q0 dx show ?thesis by simp
qed

lemma edge_zero_on_segment:
  assumes "edge_zero p a b"
  shows "on_segment a b p"
proof -
  obtain px py ax ay bx by' where [simp]: "p = (px, py)" "a = (ax, ay)" "b = (bx, by')"
    by (cases p, cases a, cases b) auto
  show ?thesis
  proof (cases "edge_skipped p a b")
    case True
    with assms have "edge_touched p a b" by (simp add: edge_zero_def)
    then show ?thesis
      by (auto simp: edge_touched_def on_segment_def)
  next
    case False
    with assms have d: "(py - ay) * (bx - ax) = (px - ax) * (by' - ay)"
      by (simp add: edge_zero_def edge_dist_def)
    from False consider (up) "ay \<le> py" "py < by'" | (dn) "by' \<le> py" "py < ay"
      by (auto simp: edge_skipped_def)
    then show ?thesis
    proof cases
      case up
      have "min 0 (bx - ax) \<le> px - ax \<and> px - ax \<le> max 0 (bx - ax)"
        using collinear_between [of "py - ay" "bx - ax" "px - ax" "by' - ay"] d up by simp
      then show ?thesis using d up by (auto simp: on_segment_def)
    next
      case dn
      have "(ay - py) * (bx - ax) = (px - ax) * (ay - by')"
        using d by (simp add: algebra_simps)
      then have "min 0 (bx - ax) \<le> px - ax \<and> px - ax \<le> max 0 (bx - ax)"
        using collinear_between [of "ay - py" "bx - ax" "px - ax" "ay - by'"] dn by simp
      then show ?thesis using d dn by (auto simp: on_segment_def)
    qed
  qed
qed

lemma on_segment_not_zero:
  assumes seg: "on_segment a b p" and nz: "\<not> edge_zero p a b"
  shows "p = a"
proof -
  obtain px py ax ay bx by' where [simp]: "p = (px, py)" "a = (ax, ay)" "b = (bx, by')"
    by (cases p, cases a, cases b) auto
  from seg have d: "(py - ay) * (bx - ax) = (px - ax) * (by' - ay)"
    and bx: "min ax bx \<le> px" "px \<le> max ax bx"
    and bY: "min ay by' \<le> py" "py \<le> max ay by'"
    by (simp_all add: on_segment_def)
  have "edge_dist p a b = 0"
    using d by (simp add: edge_dist_def)
  with nz have sk: "edge_skipped p a b"
    by (auto simp: edge_zero_def split: if_splits)
  with nz have nt: "\<not> edge_touched p a b" by (simp add: edge_zero_def)
  from sk bx bY have top: "ay \<le> py" "by' \<le> py"
    by (auto simp: edge_skipped_def)
  have "py \<noteq> by'"
  proof
    assume e: "py = by'"
    show False
    proof (cases "ay = by'")
      case True
      with e nt bx show False by (auto simp: edge_touched_def)
    next
      case False
      with d e have "bx - ax = px - ax" by simp
      with e nt show False by (simp add: edge_touched_def)
    qed
  qed
  with top bY have py: "py = ay" "by' \<noteq> ay" by auto
  with d have "px = ax" by simp
  with py show ?thesis by simp
qed

lemma on_boundary_iff_zero:
  "on_boundary contour p \<longleftrightarrow> (\<exists>e \<in> set (edges contour). edge_zero p (fst e) (snd e))"
proof
  assume "\<exists>e \<in> set (edges contour). edge_zero p (fst e) (snd e)"
  then show "on_boundary contour p"
    unfolding on_boundary_def using edge_zero_on_segment by blast
next
  assume "on_boundary contour p"
  then obtain e where e: "e \<in> set (edges contour)" "on_segment (fst e) (snd e) p"
    unfolding on_boundary_def by blast
  show "\<exists>e \<in> set (edges contour). edge_zero p (fst e) (snd e)"
  proof (cases "edge_zero p (fst e) (snd e)")
    case True
    with e show ?thesis by blast
  next
    case False
    with e have pa: "p = fst e" using on_segment_not_zero by blast
    from e have ne: "contour \<noteq> []" by (auto simp: edges_def split: if_splits)
    with e have "(fst e, snd e) \<in> set (zip (last contour # contour) contour)"
      by (simp add: edges_def)
    then have "fst e \<in> set (last contour # contour)"
      by (rule set_zip_leftD)
    with ne have "fst e \<in> set contour" by auto
    then have "p \<in> set contour" using pa by simp
    moreover have "map snd (edges contour) = contour"
      using ne by (simp add: edges_def map_snd_zip_take)
    ultimately have "p \<in> snd ` set (edges contour)"
      by (metis set_map)
    then obtain e' where "e' \<in> set (edges contour)" "snd e' = p" by auto
    then show ?thesis using edge_zero_end [of p "fst e'"] by auto
  qed
qed

lemma pointPolygonTest_char:
  "pointPolygonTest contour p =
     (if on_boundary contour p then 0 else if odd (crossings contour p) then 1 else - 1)"
proof (cases "contour = []")
  case True
  then show ?thesis
    by (simp add: pointPolygonTest_def on_boundary_def crossings_def edges_def)
next
  case False
  have "(\<lambda>e. edge_counted p (fst e) (snd e)) = (\<lambda>e. ray_crosses (fst e) (snd e) p)"
    by (simp add: edge_counted_iff_ray)
  then show ?thesis
    using False
    by (simp add: pointPolygonTest_def ppt_loop_char on_boundary_iff_zero crossings_def edges_def)
qed


lemma region_hit_char: "region_hit contour p \<longleftrightarrow> on_boundary contour p \<or> odd (crossings contour p)"
  by (simp add: region_hit_def pointPolygonTest_char)

lemmas ppt_eval =
  pointPolygonTest_def region_hit_def edge_skipped_def edge_touched_def edge_dist_def

text \<open>
  C1. The containment test of \<^verbatim>\<open>create_overlay_image\<close> reports a hit exactly when the
  point lies inside the polygon or on its boundary. For the square with corners
  \<open>(0,0), (10,0), (10,10), (0,10)\<close>: \<open>(5,5)\<close> is inside and a hit, the edge point
  \<open>(10,5)\<close> is on the boundary and a hit, and \<open>(11,5)\<close> is neither and not a hit.
\<close>

theorem region_hit_inside_or_boundary:
  "(region_hit contour p \<longleftrightarrow> inside contour p \<or> on_boundary contour p) \<and>
   region_hit square (5, 5) \<and> inside square (5, 5) \<and>
   region_hit square (10, 5) \<and> on_boundary square (10, 5) \<and>
   \<not> region_hit square (11, 5) \<and> \<not> inside square (11, 5) \<and> \<not> on_boundary square (11, 5)"
proof -
  have general: "region_hit contour p \<longleftrightarrow> inside contour p \<or> on_boundary contour p"
    by (auto simp: region_hit_char inside_def)
  have h1: "region_hit square (5, 5)" "region_hit square (10, 5)" "\<not> region_hit square (11, 5)"
    by (simp_all add: ppt_eval square_def)
  have b1: "\<not> on_boundary square (5, 5)" "on_boundary square (10, 5)" "\<not> on_boundary square (11, 5)"
    by (simp_all add: on_boundary_def edges_def on_segment_def square_def)
  have i1: "inside square (5, 5)"
    using h1(1) b1(1) by (simp add: region_hit_char inside_def)
  have i2: "\<not> inside square (11, 5)"
    using h1(3) by (simp add: region_hit_char inside_def)
  show ?thesis using general h1 b1 i1 i2 by blast
qed

section \<open>The overlay loops as filters\<close>

lemma mark_regions_eq:
  "mark_regions polygons p img check = (img @ marks polygons p, check @ query polygons p)"
  by (induction polygons arbitrary: img check)
     (auto simp: marks_def query_def hit_regions_def region_hit_def)

lemma mark_both_eq:
  "mark_both polygons p1 p2 img =
     (img @ marks polygons p1 @ marks polygons p2, query polygons p1 @ query polygons p2)"
  by (simp add: mark_both_def mark_regions_eq)

lemma mark_regions_single_eq:
  "mark_regions_single polygons p img = img @ marks_headline polygons p"
  by (induction polygons arbitrary: img)
     (auto simp: marks_headline_def hit_regions_def region_hit_def)

lemma show_flight_times_eq:
  "show_flight_times table a b img = img @ concat (map flight_time_texts (flight_time_lookup table a b))"
  by (induction table arbitrary: img) (auto simp: flight_time_lookup_def)

lemma flight_time_lookup_sym: "flight_time_lookup table a b = flight_time_lookup table b a"
  by (simp add: flight_time_lookup_def conj_commute)


lemmas example_defs = square_def overlap_square_def far_square_def overlap_regions_def

lemma query_hit_regions: "query polygons p = map snd (hit_regions polygons p)"
  by (simp add: query_def hit_regions_def)

lemma Line_notin_marks: "Line a b n \<notin> set (marks polygons p)"
  by (auto simp: marks_def mark_polygon_def)

lemma Line_notin_texts: "Line a b n \<notin> set (concat (map flight_time_texts rows))"
  by (auto simp: flight_time_texts_def)

lemma create_overlay_image_pair:
  "create_overlay_image polygons (List2 p1 p2) imgOverlay =
     (if length (query polygons p1) + length (query polygons p2) = 2
      then imgOverlay @ marks polygons p1 @ marks polygons p2 @ [Line p1 p2 10] @
           concat (map flight_time_texts
             (flight_time_lookup flight_time_list
                ((query polygons p1 @ query polygons p2) ! 0)
                ((query polygons p1 @ query polygons p2) ! 1)))
      else imgOverlay @ marks polygons p1 @ marks polygons p2)"
  by (simp add: mark_both_eq show_flight_times_eq)

lemma one_each:
  assumes "length xs = 1" "length ys = 1"
  shows "(xs @ ys) ! 0 = hd xs" "(xs @ ys) ! Suc 0 = hd ys"
  using assms by (cases xs; cases ys; simp)+

lemma overlap_hits_first: "hit_regions overlap_regions (7, 7) = [(square, ''USA''), (overlap_square, ''Canada'')]"
  by (simp add: hit_regions_def ppt_eval example_defs)
lemma overlap_hits_second: "hit_regions overlap_regions (25, 25) = [(far_square, ''India'')]"
  by (simp add: hit_regions_def ppt_eval example_defs)

lemma marks_explicit:
  "marks polygons p =
     concat (map (\<lambda>r. [Polylines (fst r), FillPoly (fst r), PutTextRect (snd r) (fst r ! 0) 1 1])
       (filter (\<lambda>r. region_hit (fst r) p) polygons))"
  by (simp add: marks_def hit_regions_def mark_polygon_def)

lemma marks_headline_explicit:
  "marks_headline polygons p =
     concat (map (\<lambda>r. [Polylines (fst r), FillPoly (fst r), PutTextRect (snd r) (fst r ! 0) 1 1,
                          PutTextRect (snd r) (0, 100) 8 5])
       (filter (\<lambda>r. region_hit (fst r) p) polygons))"
  by (simp add: marks_headline_def hit_regions_def mark_polygon_headline_def)

lemma show_flight_times_explicit:
  "show_flight_times table a b img =
     img @ concat (map (\<lambda>flight_time.
                     [PutTextRect (flight_time ! 1 @ '' to '' @ flight_time ! 0) (0, 100) 8 5,
                      PutTextRect (flight_time ! 2) (0, 200) 8 5])
       (filter (\<lambda>flight_time. a \<in> set flight_time \<and> b \<in> set flight_time) table))"
  by (induction table arbitrary: img) (auto simp: flight_time_texts_def)

lemma overlap_hits_third: "hit_regions overlap_regions (100, 100) = []"
  by (simp add: hit_regions_def ppt_eval example_defs)

text \<open>
  C4. Every region that contains the point is matched, outlined, filled and labelled, in
  load order, not only the first. The single-point branch draws, for each region hit,
  its outline, its fill, its name at the first vertex and the headline; the loops of the
  two-point branch draw outline, fill and name for each region hit by the first point
  and then by the second, collect all their names in \<^verbatim>\<open>check\<close>, and the image
  returned starts with these drawings. With two overlapping squares a point in both is
  reported and drawn for both, in either branch.
\<close>

theorem all_containing_regions_marked:
  "create_overlay_image polygons (Tuple p) imgOverlay =
     imgOverlay @
     concat (map (\<lambda>r. [Polylines (fst r), FillPoly (fst r), PutTextRect (snd r) (fst r ! 0) 1 1,
                          PutTextRect (snd r) (0, 100) 8 5])
       (filter (\<lambda>r. region_hit (fst r) p) polygons)) \<and>
   mark_both polygons p1 p2 imgOverlay =
     (imgOverlay @
      concat (map (\<lambda>r. [Polylines (fst r), FillPoly (fst r), PutTextRect (snd r) (fst r ! 0) 1 1])
        (filter (\<lambda>r. region_hit (fst r) p1) polygons)) @
      concat (map (\<lambda>r. [Polylines (fst r), FillPoly (fst r), PutTextRect (snd r) (fst r ! 0) 1 1])
        (filter (\<lambda>r. region_hit (fst r) p2) polygons)),
      map snd (filter (\<lambda>r. region_hit (fst r) p1) polygons) @
      map snd (filter (\<lambda>r. region_hit (fst r) p2) polygons)) \<and>
   (\<exists>rest. create_overlay_image polygons (List2 p1 p2) imgOverlay =
      fst (mark_both polygons p1 p2 imgOverlay) @ rest) \<and>
   query polygons p = map snd (filter (\<lambda>r. region_hit (fst r) p) polygons) \<and>
   query overlap_regions (7, 7) = [''USA'', ''Canada''] \<and>
   create_overlay_image overlap_regions (Tuple (7, 7)) [] =
     [Polylines square, FillPoly square,
      PutTextRect ''USA'' (0, 0) 1 1, PutTextRect ''USA'' (0, 100) 8 5,
      Polylines overlap_square, FillPoly overlap_square,
      PutTextRect ''Canada'' (5, 5) 1 1, PutTextRect ''Canada'' (0, 100) 8 5] \<and>
   create_overlay_image overlap_regions (List2 (7, 7) (25, 25)) [] =
     [Polylines square, FillPoly square, PutTextRect ''USA'' (0, 0) 1 1,
      Polylines overlap_square, FillPoly overlap_square, PutTextRect ''Canada'' (5, 5) 1 1,
      Polylines far_square, FillPoly far_square, PutTextRect ''India'' (20, 20) 1 1]"
proof -
  have a: "create_overlay_image polygons (Tuple p) imgOverlay =
     imgOverlay @
     concat (map (\<lambda>r. [Polylines (fst r), FillPoly (fst r), PutTextRect (snd r) (fst r ! 0) 1 1,
                          PutTextRect (snd r) (0, 100) 8 5])
       (filter (\<lambda>r. region_hit (fst r) p) polygons))"
    by (simp add: mark_regions_single_eq marks_headline_explicit)
  have b: "mark_both polygons p1 p2 imgOverlay =
     (imgOverlay @
      concat (map (\<lambda>r. [Polylines (fst r), FillPoly (fst r), PutTextRect (snd r) (fst r ! 0) 1 1])
        (filter (\<lambda>r. region_hit (fst r) p1) polygons)) @
      concat (map (\<lambda>r. [Polylines (fst r), FillPoly (fst r), PutTextRect (snd r) (fst r ! 0) 1 1])
        (filter (\<lambda>r. region_hit (fst r) p2) polygons)),
      map snd (filter (\<lambda>r. region_hit (fst r) p1) polygons) @
      map snd (filter (\<lambda>r. region_hit (fst r) p2) polygons))"
    by (simp add: mark_both_eq marks_explicit query_def)
  have c: "\<exists>rest. create_overlay_image polygons (List2 p1 p2) imgOverlay =
      fst (mark_both polygons p1 p2 imgOverlay) @ rest"
    by (simp add: create_overlay_image_pair mark_both_eq del: create_overlay_image.simps)
  have d: "query polygons p = map snd (filter (\<lambda>r. region_hit (fst r) p) polygons)"
    by (simp add: query_def)
  have e: "query overlap_regions (7, 7) = [''USA'', ''Canada'']"
    by (simp add: query_hit_regions overlap_hits_first)
  have f: "create_overlay_image overlap_regions (Tuple (7, 7)) [] =
     [Polylines square, FillPoly square,
      PutTextRect ''USA'' (0, 0) 1 1, PutTextRect ''USA'' (0, 100) 8 5,
      Polylines overlap_square, FillPoly overlap_square,
      PutTextRect ''Canada'' (5, 5) 1 1, PutTextRect ''Canada'' (0, 100) 8 5]"
    by (simp add: mark_regions_single_eq marks_headline_def overlap_hits_first
          mark_polygon_headline_def)
       (simp add: example_defs)
  have g: "create_overlay_image overlap_regions (List2 (7, 7) (25, 25)) [] =
     [Polylines square, FillPoly square, PutTextRect ''USA'' (0, 0) 1 1,
      Polylines overlap_square, FillPoly overlap_square, PutTextRect ''Canada'' (5, 5) 1 1,
      Polylines far_square, FillPoly far_square, PutTextRect ''India'' (20, 20) 1 1]"
    by (simp add: create_overlay_image_pair query_hit_regions marks_def overlap_hits_first
          overlap_hits_second mark_polygon_def del: create_overlay_image.simps)
       (simp add: example_defs)
  from a b c d e f g show ?thesis by blast
qed

text \<open>
  C5. The travel lookup is symmetric in the two names: the texts drawn by the loop over
  the table, and the rows they come from, are the same in either order, and something
  is drawn exactly when some row contains both names. In the table of the program,
  \<open>USA\<close> and \<open>India\<close> select the row \<open>[USA, India, 14 hours]\<close> in both orders and
  its two texts are drawn; \<open>USA\<close> and \<open>Canada\<close> select no row and draw nothing.
\<close>

theorem flight_time_lookup_symmetric:
  "show_flight_times table a b imgOverlay = show_flight_times table b a imgOverlay \<and>
   show_flight_times table a b imgOverlay =
     imgOverlay @
     concat (map (\<lambda>flight_time.
                     [PutTextRect (flight_time ! 1 @ '' to '' @ flight_time ! 0) (0, 100) 8 5,
                      PutTextRect (flight_time ! 2) (0, 200) 8 5])
       (flight_time_lookup table a b)) \<and>
   (show_flight_times table a b imgOverlay \<noteq> imgOverlay \<longleftrightarrow>
      (\<exists>flight_time \<in> set table. a \<in> set flight_time \<and> b \<in> set flight_time)) \<and>
   flight_time_lookup table a b = flight_time_lookup table b a \<and>
   (flight_time_lookup table a b \<noteq> [] \<longleftrightarrow>
      (\<exists>flight_time \<in> set table. a \<in> set flight_time \<and> b \<in> set flight_time)) \<and>
   flight_time_lookup flight_time_list ''USA'' ''India'' = [[''USA'', ''India'', ''14 hours'']] \<and>
   flight_time_lookup flight_time_list ''India'' ''USA'' = [[''USA'', ''India'', ''14 hours'']] \<and>
   flight_time_lookup flight_time_list ''USA'' ''Canada'' = [] \<and>
   show_flight_times flight_time_list ''USA'' ''India'' [] =
     [PutTextRect ''India to USA'' (0, 100) 8 5, PutTextRect ''14 hours'' (0, 200) 8 5] \<and>
   show_flight_times flight_time_list ''India'' ''USA'' [] =
     [PutTextRect ''India to USA'' (0, 100) 8 5, PutTextRect ''14 hours'' (0, 200) 8 5] \<and>
   show_flight_times flight_time_list ''USA'' ''Canada'' [] = []"
proof -
  have s: "flight_time_lookup table a b = flight_time_lookup table b a"
    by (rule flight_time_lookup_sym)
  have s': "show_flight_times table a b imgOverlay = show_flight_times table b a imgOverlay"
    by (simp add: show_flight_times_eq flight_time_lookup_sym [of table a b])
  have x: "show_flight_times table a b imgOverlay =
     imgOverlay @
     concat (map (\<lambda>flight_time.
                     [PutTextRect (flight_time ! 1 @ '' to '' @ flight_time ! 0) (0, 100) 8 5,
                      PutTextRect (flight_time ! 2) (0, 200) 8 5])
       (flight_time_lookup table a b))"
    by (simp add: show_flight_times_explicit flight_time_lookup_def)
  have f: "flight_time_lookup table a b \<noteq> [] \<longleftrightarrow>
      (\<exists>flight_time \<in> set table. a \<in> set flight_time \<and> b \<in> set flight_time)"
    by (simp add: flight_time_lookup_def filter_empty_conv)
  have n: "show_flight_times table a b imgOverlay \<noteq> imgOverlay \<longleftrightarrow>
      flight_time_lookup table a b \<noteq> []"
    unfolding x by (cases "flight_time_lookup table a b") simp_all
  have c: "flight_time_lookup flight_time_list ''USA'' ''India'' = [[''USA'', ''India'', ''14 hours'']]"
    "flight_time_lookup flight_time_list ''India'' ''USA'' = [[''USA'', ''India'', ''14 hours'']]"
    "flight_time_lookup flight_time_list ''USA'' ''Canada'' = []"
    by (simp_all add: flight_time_lookup_def flight_time_list_def)
  have r: "show_flight_times flight_time_list ''USA'' ''India'' [] =
     [PutTextRect ''India to USA'' (0, 100) 8 5, PutTextRect ''14 hours'' (0, 200) 8 5]"
    "show_flight_times flight_time_list ''India'' ''USA'' [] =
     [PutTextRect ''India to USA'' (0, 100) 8 5, PutTextRect ''14 hours'' (0, 200) 8 5]"
    "show_flight_times flight_time_list ''USA'' ''Canada'' [] = []"
    by (simp_all add: flight_time_list_def flight_time_texts_def)
  from s s' x f n c r show ?thesis by blast
qed


section \<open>The two-point branch\<close>

text \<open>
  C2, as amended. In the two-point branch \<^verbatim>\<open>check\<close> holds the names matched by the
  first point followed by those matched by the second. After the marks of all matched
  regions, the line between the two points is drawn and the table is searched with
  \<^verbatim>\<open>check[0]\<close> and \<^verbatim>\<open>check[1]\<close> exactly when \<^verbatim>\<open>check\<close> has two entries;
  otherwise nothing more is drawn. When each point matches exactly one region, the two
  names searched are the region of the first point and the region of the second. When
  one point lies in two regions and the other in none, the two names are those two
  regions, as in the last example.
\<close>

theorem two_point_line_and_lookup:
  "create_overlay_image polygons (List2 p1 p2) imgOverlay =
     imgOverlay @
     concat (map (\<lambda>r. [Polylines (fst r), FillPoly (fst r), PutTextRect (snd r) (fst r ! 0) 1 1])
       (filter (\<lambda>r. region_hit (fst r) p1) polygons)) @
     concat (map (\<lambda>r. [Polylines (fst r), FillPoly (fst r), PutTextRect (snd r) (fst r ! 0) 1 1])
       (filter (\<lambda>r. region_hit (fst r) p2) polygons)) @
     (if length (query polygons p1) + length (query polygons p2) = 2
      then Line p1 p2 10 #
           concat (map (\<lambda>flight_time.
                           [PutTextRect (flight_time ! 1 @ '' to '' @ flight_time ! 0) (0, 100) 8 5,
                            PutTextRect (flight_time ! 2) (0, 200) 8 5])
             (filter (\<lambda>flight_time.
                        (query polygons p1 @ query polygons p2) ! 0 \<in> set flight_time \<and>
                        (query polygons p1 @ query polygons p2) ! 1 \<in> set flight_time)
                flight_time_list))
      else []) \<and>
   (length (query polygons p1) = 1 \<and> length (query polygons p2) = 1 \<longrightarrow>
      create_overlay_image polygons (List2 p1 p2) imgOverlay =
        imgOverlay @
        concat (map (\<lambda>r. [Polylines (fst r), FillPoly (fst r), PutTextRect (snd r) (fst r ! 0) 1 1])
          (filter (\<lambda>r. region_hit (fst r) p1) polygons)) @
        concat (map (\<lambda>r. [Polylines (fst r), FillPoly (fst r), PutTextRect (snd r) (fst r ! 0) 1 1])
          (filter (\<lambda>r. region_hit (fst r) p2) polygons)) @
        Line p1 p2 10 #
        concat (map (\<lambda>flight_time.
                        [PutTextRect (flight_time ! 1 @ '' to '' @ flight_time ! 0) (0, 100) 8 5,
                         PutTextRect (flight_time ! 2) (0, 200) 8 5])
          (filter (\<lambda>flight_time.
                     hd (query polygons p1) \<in> set flight_time \<and>
                     hd (query polygons p2) \<in> set flight_time)
             flight_time_list))) \<and>
   query polygons p = map snd (filter (\<lambda>r. region_hit (fst r) p) polygons) \<and>
   (Line p1 p2 10 \<in> set (create_overlay_image polygons (List2 p1 p2) []) \<longleftrightarrow>
      length (query polygons p1) + length (query polygons p2) = 2) \<and>
   create_overlay_image [(square, ''USA''), (overlap_square, ''India'')]
       (List2 (7, 7) (100, 100)) [] =
     [Polylines square, FillPoly square, PutTextRect ''USA'' (0, 0) 1 1,
      Polylines overlap_square, FillPoly overlap_square, PutTextRect ''India'' (5, 5) 1 1,
      Line (7, 7) (100, 100) 10,
      PutTextRect ''India to USA'' (0, 100) 8 5, PutTextRect ''14 hours'' (0, 200) 8 5]"
proof -
  let ?H = "\<lambda>q. concat (map (\<lambda>r. [Polylines (fst r), FillPoly (fst r),
                                      PutTextRect (snd r) (fst r ! 0) 1 1])
                     (filter (\<lambda>r. region_hit (fst r) q) polygons))"
  have full: "create_overlay_image polygons (List2 p1 p2) imgOverlay =
     imgOverlay @ ?H p1 @ ?H p2 @
     (if length (query polygons p1) + length (query polygons p2) = 2
      then Line p1 p2 10 #
           concat (map (\<lambda>flight_time.
                           [PutTextRect (flight_time ! 1 @ '' to '' @ flight_time ! 0) (0, 100) 8 5,
                            PutTextRect (flight_time ! 2) (0, 200) 8 5])
             (filter (\<lambda>flight_time.
                        (query polygons p1 @ query polygons p2) ! 0 \<in> set flight_time \<and>
                        (query polygons p1 @ query polygons p2) ! 1 \<in> set flight_time)
                flight_time_list))
      else [])"
    by (simp add: create_overlay_image_pair marks_explicit flight_time_lookup_def
          flight_time_texts_def [abs_def] del: create_overlay_image.simps)
  have each: "length (query polygons p1) = 1 \<and> length (query polygons p2) = 1 \<longrightarrow>
      create_overlay_image polygons (List2 p1 p2) imgOverlay =
        imgOverlay @ ?H p1 @ ?H p2 @
        Line p1 p2 10 #
        concat (map (\<lambda>flight_time.
                        [PutTextRect (flight_time ! 1 @ '' to '' @ flight_time ! 0) (0, 100) 8 5,
                         PutTextRect (flight_time ! 2) (0, 200) 8 5])
          (filter (\<lambda>flight_time.
                     hd (query polygons p1) \<in> set flight_time \<and>
                     hd (query polygons p2) \<in> set flight_time)
             flight_time_list))"
    by (simp add: full one_each del: create_overlay_image.simps)
  have q: "query polygons p = map snd (filter (\<lambda>r. region_hit (fst r) p) polygons)"
    by (simp add: query_def)
  have line: "Line p1 p2 10 \<in> set (create_overlay_image polygons (List2 p1 p2) []) \<longleftrightarrow>
      length (query polygons p1) + length (query polygons p2) = 2"
    by (simp add: create_overlay_image_pair Line_notin_marks Line_notin_texts
          del: set_concat create_overlay_image.simps)
  have h: "hit_regions [(square, ''USA''), (overlap_square, ''India'')] (7, 7) =
             [(square, ''USA''), (overlap_square, ''India'')]"
    "hit_regions [(square, ''USA''), (overlap_square, ''India'')] (100, 100) = []"
    by (simp_all add: hit_regions_def ppt_eval example_defs)
  have ex: "create_overlay_image [(square, ''USA''), (overlap_square, ''India'')]
       (List2 (7, 7) (100, 100)) [] =
     [Polylines square, FillPoly square, PutTextRect ''USA'' (0, 0) 1 1,
      Polylines overlap_square, FillPoly overlap_square, PutTextRect ''India'' (5, 5) 1 1,
      Line (7, 7) (100, 100) 10,
      PutTextRect ''India to USA'' (0, 100) 8 5, PutTextRect ''14 hours'' (0, 200) 8 5]"
    by (simp add: create_overlay_image_pair query_hit_regions marks_def h mark_polygon_def
          flight_time_lookup_def flight_time_list_def flight_time_texts_def
          del: create_overlay_image.simps)
       (simp add: example_defs)
  from full each q line ex show ?thesis by blast
qed

text \<open>
  C2 as stated fails where a point lies in two overlapping regions: the first point
  matches \<open>USA\<close> and \<open>Canada\<close>, the second matches \<open>India\<close>, the table has a row for
  \<open>USA\<close> and \<open>India\<close>, and yet neither the line nor any travel text is drawn.
\<close>

theorem two_point_overlap_counterexample:
  "query overlap_regions (7, 7) = [''USA'', ''Canada''] \<and>
   query overlap_regions (25, 25) = [''India''] \<and>
   flight_time_lookup flight_time_list ''USA'' ''India'' = [[''USA'', ''India'', ''14 hours'']] \<and>
   Line (7, 7) (25, 25) 10 \<notin> set (create_overlay_image overlap_regions (List2 (7, 7) (25, 25)) []) \<and>
   create_overlay_image overlap_regions (List2 (7, 7) (25, 25)) [] =
     mark_polygon square ''USA'' @ mark_polygon overlap_square ''Canada'' @
     mark_polygon far_square ''India''"
  by (simp add: create_overlay_image_pair query_hit_regions marks_def overlap_hits_first overlap_hits_second mark_polygon_def
        flight_time_lookup_def flight_time_list_def del: create_overlay_image.simps)


theorem two_point_line_and_lookup_witness:
  "length (query [(square, ''USA''), (far_square, ''India'')] (7, 7)) = 1 \<and>
   length (query [(square, ''USA''), (far_square, ''India'')] (25, 25)) = 1 \<and>
   create_overlay_image [(square, ''USA''), (far_square, ''India'')] (List2 (7, 7) (25, 25)) [] =
     [Polylines square, FillPoly square, PutTextRect ''USA'' (0, 0) 1 1,
      Polylines far_square, FillPoly far_square, PutTextRect ''India'' (20, 20) 1 1,
      Line (7, 7) (25, 25) 10,
      PutTextRect ''India to USA'' (0, 100) 8 5, PutTextRect ''14 hours'' (0, 200) 8 5]"
proof -
  let ?rs = "[(square, ''USA''), (far_square, ''India'')]"
  have h: "hit_regions ?rs (7, 7) = [(square, ''USA'')]"
    "hit_regions ?rs (25, 25) = [(far_square, ''India'')]"
    by (simp_all add: hit_regions_def ppt_eval example_defs)
  have f: "filter (\<lambda>r. region_hit (fst r) (7, 7)) ?rs = [(square, ''USA'')]"
    "filter (\<lambda>r. region_hit (fst r) (25, 25)) ?rs = [(far_square, ''India'')]"
    using h by (simp_all add: hit_regions_def)
  have l: "length (query ?rs (7, 7)) = 1 \<and> length (query ?rs (25, 25)) = 1"
    by (simp add: query_hit_regions h)
  note t = two_point_line_and_lookup
    [where polygons = ?rs and ?p1.0 = "(7, 7)" and ?p2.0 = "(25, 25)" and imgOverlay = "[]"
       and p = "(7, 7)"]
  from t l have e: "create_overlay_image ?rs (List2 (7, 7) (25, 25)) [] =
        [] @
        concat (map (\<lambda>r. [Polylines (fst r), FillPoly (fst r), PutTextRect (snd r) (fst r ! 0) 1 1])
          (filter (\<lambda>r. region_hit (fst r) (7, 7)) ?rs)) @
        concat (map (\<lambda>r. [Polylines (fst r), FillPoly (fst r), PutTextRect (snd r) (fst r ! 0) 1 1])
          (filter (\<lambda>r. region_hit (fst r) (25, 25)) ?rs)) @
        Line (7, 7) (25, 25) 10 #
        concat (map (\<lambda>flight_time.
                        [PutTextRect (flight_time ! 1 @ '' to '' @ flight_time ! 0) (0, 100) 8 5,
                         PutTextRect (flight_time ! 2) (0, 200) 8 5])
          (filter (\<lambda>flight_time.
                     hd (query ?rs (7, 7)) \<in> set flight_time \<and>
                     hd (query ?rs (25, 25)) \<in> set flight_time)
             flight_time_list))"
    by blast
  have "create_overlay_image ?rs (List2 (7, 7) (25, 25)) [] =
     [Polylines square, FillPoly square, PutTextRect ''USA'' (0, 0) 1 1,
      Polylines far_square, FillPoly far_square, PutTextRect ''India'' (20, 20) 1 1,
      Line (7, 7) (25, 25) 10,
      PutTextRect ''India to USA'' (0, 100) 8 5, PutTextRect ''14 hours'' (0, 200) 8 5]"
    unfolding e f
    by (simp add: query_hit_regions h flight_time_list_def) (simp add: example_defs)
  with l show ?thesis by blast
qed





section \<open>The frame loop\<close>

text \<open>
  C6. With zero hands detected \<^verbatim>\<open>get_finger_location\<close> yields no point (and only
  then), the overlay image stays as \<^verbatim>\<open>np.zeros\<close> made it, and the picture shown is
  the camera frame itself: \<^verbatim>\<open>inverse_warp_image\<close> is not called.
\<close>

theorem zero_hands_no_overlay:
  "get_finger_location [] = None \<and>
   (get_finger_location hands = None \<longleftrightarrow> hands = []) \<and>
   flight_time_iteration polygons (success, Some img) [] =
     ([Applied Op_warp_image, Applied Op_copy, Applied Op_findHands, Applied Op_imshow],
      Inr ([], Camera img))"
proof -
  have "get_finger_location hands = None \<longleftrightarrow> hands = []"
    by (cases hands rule: get_finger_location.cases) simp_all
  then show ?thesis by (simp add: flight_time_iteration_def)
qed

text \<open>
  C8 at a failed acquisition, \<^verbatim>\<open>cap.read()\<close> returning \<^verbatim>\<open>(False, None)\<close>: the
  loop of \<^verbatim>\<open>flight_time.py\<close> never reads the flag and passes the missing frame to
  \<^verbatim>\<open>warp_image\<close>, where \<^verbatim>\<open>cv2.warpPerspective\<close> raises, so the program ends
  with an exception and nothing is logged. The loop of \<^verbatim>\<open>get_map.py\<close>, before four
  points are collected, does what the claim says: it tests the flag, prints the failure
  and breaks.
\<close>

theorem failed_read_is_processed:
  "flight_time_iteration polygons (False, None) hands =
     ([Applied Op_warp_image], Inl (Cv2Error Op_warp_image)) \<and>
   get_map_iteration (False, None) clicks quit authoring_init =
     ([Applied Op_circle, Printed ''Failed to capture image''], Break, authoring_init)"
  by (simp add: flight_time_iteration_def get_map_iteration_def authoring_init_def)

section \<open>The authoring tool\<close>

lemma deliver_char:
  "counter st \<le> length (points st) \<Longrightarrow>
   deliver clicks st =
     st\<lparr>points := take (counter st) (points st) @
                  take (length (points st) - counter st) (left_clicks clicks) @
                  drop (counter st + length (left_clicks clicks)) (points st),
        counter := min (length (points st)) (counter st + length (left_clicks clicks))\<rparr>"
proof (induction clicks arbitrary: st)
  case Nil
  then show ?case by (simp add: left_clicks_def)
next
  case (Cons c clicks)
  obtain ev x y where c: "c = (ev, x, y)" by (cases c) auto
  show ?case
  proof (cases "ev = EVENT_LBUTTONDOWN")
    case False
    then show ?thesis using Cons c by (simp add: mousePoints_def left_clicks_def)
  next
    case True
    show ?thesis
    proof (cases "counter st < length (points st)")
      case full: False
      with Cons.prems have eq: "counter st = length (points st)" by simp
      have "deliver (c # clicks) st = deliver clicks st"
        using True full c by (simp add: mousePoints_def)
      then show ?thesis using Cons.IH [of st] Cons.prems eq by simp
    next
      case room: True
      let ?st' = "st\<lparr>points := (points st)[counter st := (x, y)], counter := counter st + 1\<rparr>"
      have d: "deliver (c # clicks) st = deliver clicks ?st'"
        using True room c by (simp add: mousePoints_def)
      have l: "left_clicks (c # clicks) = (x, y) # left_clicks clicks"
        using True c by (simp add: left_clicks_def)
      have t: "take (Suc (counter st)) ((points st)[counter st := (x, y)]) =
               take (counter st) (points st) @ [(x, y)]"
        using room by (simp add: take_Suc_conv_app_nth)
      have k: "take (length (points st) - counter st) ((x, y) # left_clicks clicks) =
               (x, y) # take (length (points st) - Suc (counter st)) (left_clicks clicks)"
      proof -
        have "length (points st) - counter st = Suc (length (points st) - Suc (counter st))"
          using room by simp
        then show ?thesis by (simp only: take_Suc_Cons)
      qed
      show ?thesis
        using Cons.IH [of ?st'] room by (simp add: d l t k)
    qed
  qed
qed


lemma deliver_full: "counter st = length (points st) \<Longrightarrow> deliver clicks st = st"
  by (simp add: deliver_char)

lemma dumped_iff:
  "Dumped pts \<in> set (fst (get_map_iteration rd clicks quit st)) \<longleftrightarrow>
     counter st = 4 \<and> pts = points st"
  by (cases rd; cases "snd rd") (auto simp: get_map_iteration_def Let_def)

text \<open>
  C9, as amended. From the initial state the stored array always has four rows: it holds
  the first four left clicks, in order, followed by the zeros not yet overwritten, and
  the counter stops at four. A left click once the array is full raises
  \<^verbatim>\<open>IndexError\<close> in the handler and leaves array and counter as they were. The points
  are written to \<^verbatim>\<open>map.p\<close> in exactly the iterations that start with the counter at
  four, and such an iteration leaves the state unchanged, so the file is written again,
  with the same points, in every following iteration.
\<close>

theorem four_points_then_saved_every_iteration:
  "points (deliver clicks authoring_init) =
     take 4 (left_clicks clicks) @ replicate (4 - length (left_clicks clicks)) (0, 0) \<and>
   counter (deliver clicks authoring_init) = min 4 (length (left_clicks clicks)) \<and>
   (counter st = length (points st) \<longrightarrow>
      mousePoints EVENT_LBUTTONDOWN x y st = Inl IndexError \<and> deliver clicks st = st) \<and>
   (Dumped pts \<in> set (fst (get_map_iteration rd clicks quit st)) \<longleftrightarrow>
      counter st = 4 \<and> pts = points st) \<and>
   (counter st = 4 \<and> length (points st) = 4 \<longrightarrow>
      get_map_iteration (True, Some img) clicks False st =
        ([Dumped (points st), Printed ''Points saved to file: map.p'',
          Applied Op_warp_image, Applied Op_imshow, Applied Op_circle, Applied Op_imshow],
         Continue, st))"
proof (intro conjI impI)
  show "points (deliver clicks authoring_init) =
     take 4 (left_clicks clicks) @ replicate (4 - length (left_clicks clicks)) (0, 0)"
    by (simp add: deliver_char authoring_init_def)
  show "counter (deliver clicks authoring_init) = min 4 (length (left_clicks clicks))"
    by (simp add: deliver_char authoring_init_def)
  show "Dumped pts \<in> set (fst (get_map_iteration rd clicks quit st)) \<longleftrightarrow>
      counter st = 4 \<and> pts = points st"
    by (rule dumped_iff)
next
  assume "counter st = length (points st)"
  then show "mousePoints EVENT_LBUTTONDOWN x y st = Inl IndexError" "deliver clicks st = st"
    by (simp_all add: mousePoints_def deliver_full)
next
  assume "counter st = 4 \<and> length (points st) = 4"
  then show "get_map_iteration (True, Some img) clicks False st =
        ([Dumped (points st), Printed ''Points saved to file: map.p'',
          Applied Op_warp_image, Applied Op_imshow, Applied Op_circle, Applied Op_imshow],
         Continue, st)"
    by (simp add: get_map_iteration_def deliver_full)
qed

text \<open>
  C9 as stated fails on the number of writes: four clicks (and a mouse move) arrive in
  the first iteration, a fifth click in the second; the file is written in the second
  and again in the third iteration.
\<close>

theorem saved_once_counterexample:
  "get_map_loop
     [((True, Some ()), [(EVENT_LBUTTONDOWN, 1, 2), (EVENT_MOUSEMOVE, 9, 9), (EVENT_LBUTTONDOWN, 3, 4),
                         (EVENT_LBUTTONDOWN, 5, 6), (EVENT_LBUTTONDOWN, 7, 8)], False),
      ((True, Some ()), [(EVENT_LBUTTONDOWN, 50, 60)], False),
      ((True, Some ()), [], False)] authoring_init =
   ([Applied Op_circle, Applied Op_imshow,
     Dumped [(1, 2), (3, 4), (5, 6), (7, 8)], Printed ''Points saved to file: map.p'',
     Applied Op_warp_image, Applied Op_imshow, Applied Op_circle, Applied Op_imshow,
     Dumped [(1, 2), (3, 4), (5, 6), (7, 8)], Printed ''Points saved to file: map.p'',
     Applied Op_warp_image, Applied Op_imshow, Applied Op_circle, Applied Op_imshow],
    \<lparr>points = [(1, 2), (3, 4), (5, 6), (7, 8)], counter = 4\<rparr>)"
  by (simp add: get_map_iteration_def authoring_init_def mousePoints_def eval_nat_numeral)

theorem four_points_then_saved_every_iteration_witness:
  "counter \<lparr>points = [(1, 2), (3, 4), (5, 6), (7, 8)], counter = 4\<rparr> = 4 \<and>
   mousePoints EVENT_LBUTTONDOWN 50 60 \<lparr>points = [(1, 2), (3, 4), (5, 6), (7, 8)], counter = 4\<rparr> =
     Inl IndexError \<and>
   deliver [(EVENT_LBUTTONDOWN, 50, 60)] \<lparr>points = [(1, 2), (3, 4), (5, 6), (7, 8)], counter = 4\<rparr> =
     \<lparr>points = [(1, 2), (3, 4), (5, 6), (7, 8)], counter = 4\<rparr> \<and>
   get_map_iteration (True, Some ()) [(EVENT_LBUTTONDOWN, 50, 60)] False
       \<lparr>points = [(1, 2), (3, 4), (5, 6), (7, 8)], counter = 4\<rparr> =
     ([Dumped [(1, 2), (3, 4), (5, 6), (7, 8)], Printed ''Points saved to file: map.p'',
       Applied Op_warp_image, Applied Op_imshow, Applied Op_circle, Applied Op_imshow],
      Continue, \<lparr>points = [(1, 2), (3, 4), (5, 6), (7, 8)], counter = 4\<rparr>)"
proof -
  let ?st = "\<lparr>points = [(1, 2), (3, 4), (5, 6), (7, 8)], counter = 4\<rparr>"
  have h: "counter ?st = length (points ?st)" "counter ?st = 4 \<and> length (points ?st) = 4"
    by simp_all
  note t = four_points_then_saved_every_iteration
    [of "[(EVENT_LBUTTONDOWN, 50, 60)]" ?st 50 60 "[]" "(True, Some ())" False "()"]
  from t h(1) have a: "mousePoints EVENT_LBUTTONDOWN 50 60 ?st = Inl IndexError \<and>
      deliver [(EVENT_LBUTTONDOWN, 50, 60)] ?st = ?st"
    by blast
  from t h(2) have b: "get_map_iteration (True, Some ()) [(EVENT_LBUTTONDOWN, 50, 60)] False ?st =
        ([Dumped (points ?st), Printed ''Points saved to file: map.p'',
          Applied Op_warp_image, Applied Op_imshow, Applied Op_circle, Applied Op_imshow],
         Continue, ?st)"
    by blast
  from a b show ?thesis by simp
qed


end
